theory Spec2Isabelle
  imports Complex_Main "HOL-Library.Word" "HOL-Library.Log_Nat"
begin

section \<open>JavaScript helpers used by both components\<close>

text \<open>
  \<^verbatim>\<open>a || b\<close> on strings: the empty string is the only falsy string, so the result is
  \<open>a\<close> when \<open>a\<close> is non-empty and \<open>b\<close> otherwise.
\<close>

definition js_or :: "string \<Rightarrow> string \<Rightarrow> string" where
  "js_or a b = (if a \<noteq> [] then a else b)"

text \<open>\<^verbatim>\<open>Array.prototype.join(sep)\<close> on an array of strings.\<close>

fun js_join :: "string \<Rightarrow> string list \<Rightarrow> string" where
  "js_join sep [] = []"
| "js_join sep [x] = x"
| "js_join sep (x # y # ys) = x @ sep @ js_join sep (y # ys)"

text \<open>\<^verbatim>\<open>Array.prototype.includes\<close>.\<close>

definition js_includes :: "'a list \<Rightarrow> 'a \<Rightarrow> bool" where
  "js_includes xs x = (x \<in> set xs)"

text \<open>A JavaScript number: a finite value, an infinity or \<^verbatim>\<open>NaN\<close>.\<close>

datatype js_number = NaN | NegInfinity | Finite rat | PosInfinity

section \<open>The WebSocket component (src/unnamed/part_000)\<close>

text \<open>
  The component state: the six fields of \<^verbatim>\<open>RecordingState\<close>, and the two refs the
  handlers clean up. A WebSocket object is a handle (a number); \<open>closedSockets\<close> is the
  set of handles on which \<^verbatim>\<open>close()\<close> has been called, so that closing the socket
  and clearing the reference are separate facts. \<open>streamRef\<close> is \<open>True\<close> while the ref
  holds a media stream. \<^verbatim>\<open>setRecording\<close> with a functional update is applied at once.
  The audio graph set up on \<^verbatim>\<open>session_started\<close> (audioContextRef, processorRef) is
  left out: no handler modelled here reads it.
\<close>

record client_state =
  isRecording :: bool
  isProcessing :: bool
  isConnecting :: bool
  transcript :: string
  partialTranscript :: string
  error :: string
  websocketRef :: "nat option"
  closedSockets :: "nat set"
  streamRef :: bool

text \<open>
  \<^verbatim>\<open>WebSocketMessage\<close>, the parsed \<^verbatim>\<open>event.data\<close>. \<open>Unhandled\<close> stands for data
  that \<^verbatim>\<open>JSON.parse\<close> rejects (the exception is caught and logged) and for a
  \<^verbatim>\<open>message_type\<close> that no \<^verbatim>\<open>case\<close> of the switch matches.
\<close>

datatype WebSocketMessage =
    SessionStarted
  | PartialTranscript string
  | FinalTranscript string
  | ErrorMessage string
  | Unhandled

definition cleanupStream :: "client_state \<Rightarrow> client_state" where
  "cleanupStream s = (if streamRef s then s\<lparr>streamRef := False\<rparr> else s)"

definition cleanupWebSocket :: "client_state \<Rightarrow> client_state" where
  "cleanupWebSocket s =
     (case websocketRef s of
        None \<Rightarrow> s
      | Some w \<Rightarrow> s\<lparr>closedSockets := insert w (closedSockets s), websocketRef := None\<rparr>)"

fun onmessage :: "WebSocketMessage \<Rightarrow> client_state \<Rightarrow> client_state" where
  "onmessage SessionStarted s = s\<lparr>isConnecting := False, isRecording := True\<rparr>"
| "onmessage (PartialTranscript t) s = s\<lparr>partialTranscript := t\<rparr>"
| "onmessage (FinalTranscript t) s =
     cleanupWebSocket (s\<lparr>transcript := t, partialTranscript := [], isProcessing := False\<rparr>)"
| "onmessage (ErrorMessage e) s =
     cleanupWebSocket
       (s\<lparr>error := e, isProcessing := False, isRecording := False, isConnecting := False\<rparr>)"
| "onmessage Unhandled s = s"

definition onerror :: "client_state \<Rightarrow> client_state" where
  "onerror s =
     cleanupWebSocket (cleanupStream
       (s\<lparr>error := ''Connection error'', isRecording := False, isConnecting := False,
          isProcessing := False\<rparr>))"

text \<open>
  A message event on the socket \<open>w\<close> that \<^verbatim>\<open>startRecording\<close> created and attached
  \<^verbatim>\<open>onmessage\<close> to. The browser fires no message event on a WebSocket once
  \<^verbatim>\<open>close()\<close> has been called on it (its ready state is no longer \<^verbatim>\<open>OPEN\<close>), so the
  handler runs only while \<open>w\<close> has not been closed. \<open>receive\<close> is the messages of the
  connection in order of arrival.
\<close>

definition deliver :: "nat \<Rightarrow> WebSocketMessage \<Rightarrow> client_state \<Rightarrow> client_state" where
  "deliver w m s = (if w \<in> closedSockets s then s else onmessage m s)"

definition receive :: "nat \<Rightarrow> WebSocketMessage list \<Rightarrow> client_state \<Rightarrow> client_state" where
  "receive w ms s = foldl (\<lambda>st m. deliver w m st) s ms"

text \<open>\<^verbatim>\<open>recording.error || recording.partialTranscript || recording.transcript\<close>;
  \<^verbatim>\<open>||\<close> associates to the left.\<close>

definition displayText :: "client_state \<Rightarrow> string" where
  "displayText s = js_or (js_or (error s) (partialTranscript s)) (transcript s)"

subsection \<open>Keyboard events\<close>

text \<open>
  \<^verbatim>\<open>e.target\<close> is either an \<^verbatim>\<open>HTMLElement\<close>, with its \<^verbatim>\<open>tagName\<close>, or something the
  \<^verbatim>\<open>instanceof\<close> test rejects (null, the window, the document, a non-HTML node).
\<close>

datatype EventTarget = HTMLElement string | NotHTMLElement

record KeyboardEvent =
  key :: string
  altKey :: bool
  metaKey :: bool
  ctrlKey :: bool
  target :: EventTarget

fun target_allowed :: "EventTarget \<Rightarrow> bool" where
  "target_allowed (HTMLElement tagName) = (\<not> js_includes [''INPUT'', ''TEXTAREA''] tagName)"
| "target_allowed NotHTMLElement = False"

text \<open>What a key handler does, in order.\<close>

datatype action = PreventDefault | StartRecording | HandleToggleRecording

definition handleKeyDown :: "client_state \<Rightarrow> KeyboardEvent \<Rightarrow> action list" where
  "handleKeyDown s e =
     (if altKey e \<and> \<not> isRecording s \<and> \<not> isConnecting s \<and> \<not> isProcessing s
         \<and> target_allowed (target e)
      then [PreventDefault, StartRecording] else [])"

section \<open>The Scribe component (page.tsx)\<close>

text \<open>
  \<^verbatim>\<open>scribe.finalTranscripts.map((t) => t.text).join(" ")\<close>, on the texts of the
  segments, and the text shown: \<^verbatim>\<open>recording.error || scribe.partialTranscript || fullTranscript\<close>.
  \<open>stableDisplayText\<close> returns the ref after storing \<open>displayText\<close> in it whenever the
  two differ.
\<close>

definition fullTranscript :: "string list \<Rightarrow> string" where
  "fullTranscript finalTexts = js_join '' '' finalTexts"

definition displayText_page :: "string \<Rightarrow> string \<Rightarrow> string list \<Rightarrow> string" where
  "displayText_page err partial finalTexts =
     js_or (js_or err partial) (fullTranscript finalTexts)"

definition stableDisplayText :: "string \<Rightarrow> string \<Rightarrow> string" where
  "stableDisplayText prevDisplayText displayTxt =
     (if displayTxt \<noteq> prevDisplayText then displayTxt else prevDisplayText)"

definition handleKeyDown_page :: "KeyboardEvent \<Rightarrow> action list" where
  "handleKeyDown_page e =
     (if key e = ''k'' \<and> (metaKey e \<or> ctrlKey e) \<and> target_allowed (target e)
      then [PreventDefault, HandleToggleRecording] else [])"

subsection \<open>Latency measurement\<close>

text \<open>
  \<^verbatim>\<open>performance.now()\<close> readings and their differences are numbers; the model takes
  them as rationals and passes the reading at the time of the call as \<open>now\<close>.
  The state is \<^verbatim>\<open>recording\<close> together with the two refs of the latency protocol.
\<close>

record page_state =
  recording_error :: string
  latenciesMs :: "rat list"
  segmentStartMsRef :: "rat option"
  lastTranscriptRef :: string

text \<open>\<^verbatim>\<open>xs.slice(-n)\<close>: the start index is \<open>max (length + (-n)) 0\<close>.\<close>

definition slice_neg :: "nat \<Rightarrow> 'a list \<Rightarrow> 'a list" where
  "slice_neg n xs = drop (if n \<le> length xs then length xs - n else 0) xs"

text \<open>\<^verbatim>\<open>data.text || ""\<close> for the optional field \<^verbatim>\<open>text?: string\<close>.\<close>

fun text_or_empty :: "string option \<Rightarrow> string" where
  "text_or_empty None = []"
| "text_or_empty (Some t) = js_or t []"

definition onPartialTranscript :: "string option \<Rightarrow> rat \<Rightarrow> page_state \<Rightarrow> page_state" where
  "onPartialTranscript text now s =
     (let currentText = text_or_empty text in
      if currentText = lastTranscriptRef s then s
      else
        let s1 = s\<lparr>lastTranscriptRef := currentText\<rparr> in
        (case segmentStartMsRef s1 of
           Some start \<Rightarrow>
             if length currentText > 0
             then s1\<lparr>latenciesMs := slice_neg 29 (latenciesMs s1) @ [now - start],
                     segmentStartMsRef := None\<rparr>
             else s1
         | None \<Rightarrow> s1))"

definition onFinalTranscript :: "string option \<Rightarrow> rat \<Rightarrow> page_state \<Rightarrow> page_state" where
  "onFinalTranscript text now s =
     (let s1 = s\<lparr>lastTranscriptRef := []\<rparr>;
          s2 = (case (text, segmentStartMsRef s1) of
                  (Some t, Some start) \<Rightarrow>
                    if t \<noteq> [] \<and> length t > 0
                    then s1\<lparr>latenciesMs := slice_neg 29 (latenciesMs s1) @ [now - start]\<rparr>
                    else s1
                | _ \<Rightarrow> s1)
      in s2\<lparr>segmentStartMsRef := None\<rparr>)"

text \<open>The body of the 100 ms interval that stands for an audio chunk being sent.\<close>

definition tick :: "rat \<Rightarrow> page_state \<Rightarrow> page_state" where
  "tick now s =
     (case segmentStartMsRef s of
        None \<Rightarrow> s\<lparr>segmentStartMsRef := Some now\<rparr>
      | Some start \<Rightarrow> s)"

subsection \<open>Double arithmetic for the average\<close>

text \<open>
  \<^verbatim>\<open>averageLatency\<close> adds and divides IEEE 754 binary64 numbers: every operation gives
  the exact result rounded to the nearest double, a tie going to the even significand.
  A finite double is a rational; \<open>to_double\<close> rounds a rational to 53 significant bits
  in its binade (to a multiple of \<open>2 ^ -1074\<close> in the subnormal range) and overflows to
  an infinity from \<open>2 ^ 1024\<close> on. The sign of zero is not kept.
\<close>

definition pow2 :: "int \<Rightarrow> rat" where
  "pow2 e = (if 0 \<le> e then 2 ^ nat e else 1 / 2 ^ nat (- e))"

text \<open>The binade of a non-zero \<open>x\<close>: the \<open>e\<close> with \<open>2 ^ e \<le> \<bar>x\<bar> < 2 ^ (e + 1)\<close>.\<close>

definition binade :: "rat \<Rightarrow> int" where
  "binade x =
     (if 1 \<le> \<bar>x\<bar> then bitlen \<lfloor>\<bar>x\<bar>\<rfloor> - 1 else - bitlen (\<lceil>1 / \<bar>x\<bar>\<rceil> - 1))"

definition round_half_even :: "rat \<Rightarrow> int" where
  "round_half_even y =
     (let f = \<lfloor>y\<rfloor>; d = y - of_int f in
      if d < 1 / 2 then f else if 1 / 2 < d then f + 1 else if even f then f else f + 1)"

definition to_double :: "rat \<Rightarrow> js_number" where
  "to_double x =
     (if x = 0 then Finite 0
      else
        let u = pow2 (max (binade x) (- 1022) - 52);
            r = of_int (round_half_even (x / u)) * u
        in if pow2 1024 \<le> r then PosInfinity
           else if r \<le> - pow2 1024 then NegInfinity
           else Finite r)"

text \<open>\<^verbatim>\<open>x + y\<close> on numbers.\<close>

fun double_add :: "js_number \<Rightarrow> js_number \<Rightarrow> js_number" where
  "double_add (Finite a) (Finite b) = to_double (a + b)"
| "double_add NaN y = NaN"
| "double_add x NaN = NaN"
| "double_add PosInfinity NegInfinity = NaN"
| "double_add NegInfinity PosInfinity = NaN"
| "double_add PosInfinity y = PosInfinity"
| "double_add x PosInfinity = PosInfinity"
| "double_add NegInfinity y = NegInfinity"
| "double_add x NegInfinity = NegInfinity"

text \<open>
  \<^verbatim>\<open>x / n\<close> for an array length \<open>n\<close>: with \<open>n = 0\<close> the quotient is \<^verbatim>\<open>NaN\<close> (for
  \<open>0 / 0\<close>) or an infinity.
\<close>

fun double_divide :: "js_number \<Rightarrow> nat \<Rightarrow> js_number" where
  "double_divide NaN n = NaN"
| "double_divide (Finite a) n =
     (if n = 0 then (if a = 0 then NaN else if 0 < a then PosInfinity else NegInfinity)
      else to_double (a / of_nat n))"
| "double_divide PosInfinity n = PosInfinity"
| "double_divide NegInfinity n = NegInfinity"

text \<open>
  \<^verbatim>\<open>Math.round\<close>: the nearest integer, a tie going up; \<^verbatim>\<open>NaN\<close> and the infinities are
  returned as they are.
\<close>

fun Math_round :: "js_number \<Rightarrow> js_number" where
  "Math_round (Finite x) = Finite (of_int \<lfloor>x + 1 / 2\<rfloor>)"
| "Math_round x = x"

text \<open>
  The \<^verbatim>\<open>useMemo\<close> that computes \<^verbatim>\<open>averageLatency\<close>; the entries of \<^verbatim>\<open>latenciesMs\<close>
  are finite numbers.
\<close>

definition averageLatency :: "rat list \<Rightarrow> js_number" where
  "averageLatency ls =
     (if length ls = 0 then Finite 0
      else Math_round
             (double_divide (foldl (\<lambda>sum v. double_add sum (Finite v)) (Finite 0) ls)
                (length ls)))"

text \<open>
  The mean as double arithmetic gives it, written as a recursion of its own: the entries
  added from left to right, then the sum divided by the count.
\<close>

fun double_sum_from :: "js_number \<Rightarrow> rat list \<Rightarrow> js_number" where
  "double_sum_from acc [] = acc"
| "double_sum_from acc (v # vs) = double_sum_from (double_add acc (Finite v)) vs"

definition double_mean :: "rat list \<Rightarrow> js_number" where
  "double_mean ls = double_divide (double_sum_from (Finite 0) ls) (length ls)"

text \<open>The doubles nearest to 184.1 and to 358.9.\<close>

definition latency_184_1 :: rat where
  "latency_184_1 = 6477442901553971 / 35184372088832"

definition latency_358_9 :: rat where
  "latency_358_9 = 3156917785670451 / 8796093022208"

text \<open>The events of the latency protocol, each with the clock reading when it runs.\<close>

datatype event =
    Tick rat
  | Partial "string option" rat
  | Final "string option" rat

fun step :: "page_state \<Rightarrow> event \<Rightarrow> page_state" where
  "step s (Tick now) = tick now s"
| "step s (Partial text now) = onPartialTranscript text now s"
| "step s (Final text now) = onFinalTranscript text now s"

definition run :: "event list \<Rightarrow> page_state \<Rightarrow> page_state" where
  "run es s = foldl step s es"

text \<open>The state on mount: \<^verbatim>\<open>useState\<close> and \<^verbatim>\<open>useRef\<close> initial values.\<close>

definition initial_page :: page_state where
  "initial_page =
     \<lparr>recording_error = [], latenciesMs = [], segmentStartMsRef = None,
      lastTranscriptRef = []\<rparr>"

subsection \<open>Reading the latency protocol off a trace\<close>

text \<open>
  Whether an event takes the branch that appends a latency, and whether it runs
  \<^verbatim>\<open>segmentStartMsRef.current = null\<close>, in the state it meets.
\<close>

fun records_latency :: "page_state \<Rightarrow> event \<Rightarrow> bool" where
  "records_latency s (Tick now) = False"
| "records_latency s (Partial text now) =
     (text_or_empty text \<noteq> lastTranscriptRef s \<and> text_or_empty text \<noteq> []
      \<and> segmentStartMsRef s \<noteq> None)"
| "records_latency s (Final text now) =
     (text_or_empty text \<noteq> [] \<and> segmentStartMsRef s \<noteq> None)"

fun clears_start :: "page_state \<Rightarrow> event \<Rightarrow> bool" where
  "clears_start s (Final text now) = True"
| "clears_start s e = records_latency s e"

fun event_time :: "event \<Rightarrow> rat" where
  "event_time (Tick now) = now"
| "event_time (Partial text now) = now"
| "event_time (Final text now) = now"

text \<open>The trace, each event marked with what it did: (event, recorded, cleared).\<close>

fun annotate :: "page_state \<Rightarrow> event list \<Rightarrow> (event \<times> bool \<times> bool) list" where
  "annotate s [] = []"
| "annotate s (e # es) = (e, records_latency s e, clears_start s e) # annotate (step s e) es"

text \<open>The part of a history after the last entry that satisfies \<open>P\<close>.\<close>

definition after_last :: "('a \<Rightarrow> bool) \<Rightarrow> 'a list \<Rightarrow> 'a list" where
  "after_last P xs = rev (takeWhile (\<lambda>x. \<not> P x) (rev xs))"

fun first_tick :: "(event \<times> bool \<times> bool) list \<Rightarrow> rat option" where
  "first_tick [] = None"
| "first_tick ((Tick now, r, c) # h) = Some now"
| "first_tick (x # h) = first_tick h"

text \<open>
  The first tick after the previous measurement, and the first tick after the last
  event that cleared the start time.
\<close>

definition tick_after_measurement :: "page_state \<Rightarrow> event list \<Rightarrow> rat option" where
  "tick_after_measurement s es = first_tick (after_last (\<lambda>(e, r, c). r) (annotate s es))"

definition tick_after_clear :: "page_state \<Rightarrow> event list \<Rightarrow> rat option" where
  "tick_after_clear s es = first_tick (after_last (\<lambda>(e, r, c). c) (annotate s es))"

text \<open>The last \<open>n\<close> entries of a list, counted from its end.\<close>

definition last_entries :: "nat \<Rightarrow> 'a list \<Rightarrow> 'a list" where
  "last_entries n xs = rev (take n (rev xs))"

section \<open>Float32 samples to PCM16 (src/unnamed/part_000)\<close>

text \<open>
  A finite Float32 sample
  is a rational with a 24-bit significand; clamped to \<open>[-1, 1]\<close> and multiplied by the
  15-bit constant \<^verbatim>\<open>0x7fff\<close> it needs at most 39 bits, so the double product is exact
  and a rational stands for it.
\<close>

fun Math_min :: "js_number \<Rightarrow> js_number \<Rightarrow> js_number" where
  "Math_min NaN y = NaN"
| "Math_min x NaN = NaN"
| "Math_min NegInfinity y = NegInfinity"
| "Math_min x NegInfinity = NegInfinity"
| "Math_min PosInfinity y = y"
| "Math_min x PosInfinity = x"
| "Math_min (Finite a) (Finite b) = Finite (min a b)"

fun Math_max :: "js_number \<Rightarrow> js_number \<Rightarrow> js_number" where
  "Math_max NaN y = NaN"
| "Math_max x NaN = NaN"
| "Math_max PosInfinity y = PosInfinity"
| "Math_max x PosInfinity = PosInfinity"
| "Math_max NegInfinity y = y"
| "Math_max x NegInfinity = x"
| "Math_max (Finite a) (Finite b) = Finite (max a b)"

text \<open>\<^verbatim>\<open>x * c\<close> for a finite constant \<open>c\<close>.\<close>

fun times_const :: "js_number \<Rightarrow> rat \<Rightarrow> js_number" where
  "times_const NaN c = NaN"
| "times_const (Finite a) c = Finite (a * c)"
| "times_const PosInfinity c =
     (if c = 0 then NaN else if 0 < c then PosInfinity else NegInfinity)"
| "times_const NegInfinity c =
     (if c = 0 then NaN else if 0 < c then NegInfinity else PosInfinity)"

text \<open>Truncation towards zero.\<close>

definition js_trunc :: "rat \<Rightarrow> int" where
  "js_trunc r = (if 0 \<le> r then \<lfloor>r\<rfloor> else \<lceil>r\<rceil>)"

text \<open>
  Storing a number in an \<^verbatim>\<open>Int16Array\<close> element (ToInt16): \<^verbatim>\<open>NaN\<close> and the infinities
  become 0, a finite value is truncated and reduced modulo \<open>2 ^ 16\<close>.
\<close>

fun ToInt16 :: "js_number \<Rightarrow> 16 word" where
  "ToInt16 (Finite r) = word_of_int (js_trunc r)"
| "ToInt16 x = 0"

definition toPcm16 :: "js_number \<Rightarrow> 16 word" where
  "toPcm16 x = ToInt16 (times_const (Math_max (Finite (- 1)) (Math_min (Finite 1) x)) 32767)"

text \<open>The loop over \<^verbatim>\<open>inputData\<close>, filling \<^verbatim>\<open>pcmData\<close> index by index.\<close>

fun pcm_loop :: "js_number list \<Rightarrow> 16 word list" where
  "pcm_loop [] = []"
| "pcm_loop (x # xs) = toPcm16 x # pcm_loop xs"

text \<open>The mathematical clamp of a finite sample.\<close>

definition clamp :: "rat \<Rightarrow> rat" where
  "clamp x = (if x < - 1 then - 1 else if 1 < x then 1 else x)"

text \<open>\<^verbatim>\<open>x <= y\<close> on numbers: false whenever an operand is \<^verbatim>\<open>NaN\<close>.\<close>

fun js_le :: "js_number \<Rightarrow> js_number \<Rightarrow> bool" where
  "js_le NaN y = False"
| "js_le x NaN = False"
| "js_le NegInfinity y = True"
| "js_le x PosInfinity = True"
| "js_le (Finite a) (Finite b) = (a \<le> b)"
| "js_le x y = False"

section \<open>Sample states\<close>

text \<open>
  The WebSocket component after the synchronous part of \<^verbatim>\<open>startRecording\<close> on a fresh
  mount: the texts cleared, \<^verbatim>\<open>isConnecting\<close> set, the stream and socket number 0 stored
  in their refs.
\<close>

definition connecting_state :: client_state where
  "connecting_state =
     \<lparr>isRecording = False, isProcessing = False, isConnecting = True, transcript = [],
      partialTranscript = [], error = [], websocketRef = Some 0, closedSockets = {},
      streamRef = True\<rparr>"

text \<open>Thirty latency samples: a full window.\<close>

definition full_window :: "rat list" where
  "full_window =
     [1, 2, 3, 4, 5, 6, 7, 8, 9, 10, 11, 12, 13, 14, 15, 16, 17, 18, 19, 20, 21, 22, 23, 24,
      25, 26, 27, 28, 29, 30]"

text \<open>A key press of Alt+Ctrl+K inside a text input.\<close>

definition key_in_input :: KeyboardEvent where
  "key_in_input =
     \<lparr>key = ''k'', altKey = True, metaKey = False, ctrlKey = True,
      target = HTMLElement ''INPUT''\<rparr>"

text \<open>
  A session in which a final transcript with empty text arrives between two recorded
  latencies.
\<close>

definition silent_final_trace :: "event list" where
  "silent_final_trace =
     [Tick 0, Partial (Some ''a'') 50, Tick 100, Final (Some []) 200, Tick 300]"

section \<open>Facts about the WebSocket handlers\<close>

lemma cleanupWebSocket_texts:
  "transcript (cleanupWebSocket s) = transcript s"
  "partialTranscript (cleanupWebSocket s) = partialTranscript s"
  "error (cleanupWebSocket s) = error s"
  by (simp_all add: cleanupWebSocket_def split: option.splits)

lemma cleanupWebSocket_flags:
  "isRecording (cleanupWebSocket s) = isRecording s"
  "isConnecting (cleanupWebSocket s) = isConnecting s"
  "isProcessing (cleanupWebSocket s) = isProcessing s"
  by (simp_all add: cleanupWebSocket_def split: option.splits)

lemma cleanupWebSocket_ref: "websocketRef (cleanupWebSocket s) = None"
  by (simp add: cleanupWebSocket_def split: option.splits)

lemma cleanupWebSocket_closed:
  "websocketRef s = Some w \<Longrightarrow> w \<in> closedSockets (cleanupWebSocket s)"
  by (simp add: cleanupWebSocket_def)

lemma cleanupStream_fields:
  "error (cleanupStream s) = error s"
  "isRecording (cleanupStream s) = isRecording s"
  "isConnecting (cleanupStream s) = isConnecting s"
  "isProcessing (cleanupStream s) = isProcessing s"
  "websocketRef (cleanupStream s) = websocketRef s"
  by (simp_all add: cleanupStream_def)

text \<open>Nothing is delivered on a closed socket.\<close>

lemma receive_closed: "w \<in> closedSockets s \<Longrightarrow> receive w ms s = s"
proof (induction ms rule: rev_induct)
  case Nil
  show ?case by (simp add: receive_def)
next
  case (snoc m ms)
  then show ?case by (simp add: receive_def deliver_def)
qed

lemma receive_append: "receive w (a @ b) s = receive w b (receive w a s)"
  by (simp add: receive_def)

text \<open>
  The reference holds the connection's socket until that socket is closed: each handler
  clears the reference only after closing the socket it holds.
\<close>

lemma onmessage_ref_or_closed:
  assumes "websocketRef s = Some w \<or> w \<in> closedSockets s"
  shows "websocketRef (onmessage m s) = Some w \<or> w \<in> closedSockets (onmessage m s)"
  using assms by (cases m) (auto simp add: cleanupWebSocket_def split: option.splits)

lemma receive_ref_or_closed:
  assumes "websocketRef s = Some w \<or> w \<in> closedSockets s"
  shows "websocketRef (receive w ms s) = Some w \<or> w \<in> closedSockets (receive w ms s)"
  using assms
proof (induction ms rule: rev_induct)
  case Nil
  then show ?case by (simp add: receive_def)
next
  case (snoc m ms)
  then have "websocketRef (receive w ms s) = Some w \<or> w \<in> closedSockets (receive w ms s)"
    by simp
  then show ?case
    using onmessage_ref_or_closed [of "receive w ms s" w m]
    by (auto simp add: receive_append receive_def deliver_def)
qed

lemma final_commits_and_closes:
  assumes "websocketRef s = Some w" and "w \<notin> closedSockets s"
  shows "transcript (receive w [FinalTranscript t] s) = t
       \<and> w \<in> closedSockets (receive w [FinalTranscript t] s)"
  using assms by (simp add: receive_def deliver_def cleanupWebSocket_def)

text \<open>Joining more segments after the committed ones only extends the text.\<close>

lemma js_join_append:
  "js_join sep (xs @ ys) =
     (if xs = [] then js_join sep ys
      else if ys = [] then js_join sep xs
      else js_join sep xs @ sep @ js_join sep ys)"
proof (induction sep xs rule: js_join.induct)
  case (1 sep)
  show ?case by simp
next
  case (2 sep x)
  show ?case by (cases ys) simp_all
next
  case (3 sep x y zs)
  then show ?case by simp
qed

text \<open>
  C1. Final transcripts are immutable once emitted. On the connection that
  \<^verbatim>\<open>startRecording\<close> set up (its socket \<open>w\<close> in \<^verbatim>\<open>websocketRef\<close>), for every sequence
  of messages \<open>pre\<close> before it: once a final transcript \<open>t\<close> has been committed (it arrived
  while the socket was open), the committed text is \<open>t\<close>, and no sequence \<open>post\<close> of later
  messages, partial or final, changes it or anything else in the state. A partial
  transcript never touches the committed text, in any state. In page.tsx the text of
  the committed segments stays as it is, at the front of the full transcript, when later
  segments follow them.
\<close>

theorem final_transcript_immutable:
  assumes "websocketRef s = Some w"
  shows "(w \<notin> closedSockets (receive w pre s) \<longrightarrow>
            transcript (receive w (pre @ [FinalTranscript t]) s) = t
          \<and> transcript (receive w (pre @ FinalTranscript t # post) s) = t
          \<and> receive w (pre @ FinalTranscript t # post) s
              = receive w (pre @ [FinalTranscript t]) s)
       \<and> transcript (onmessage (PartialTranscript p) s') = transcript s'
       \<and> (\<exists>rest. fullTranscript (finalTexts @ later) = fullTranscript finalTexts @ rest)"
proof -
  have committed: "transcript (receive w (pre @ [FinalTranscript t]) s) = t
          \<and> transcript (receive w (pre @ FinalTranscript t # post) s) = t
          \<and> receive w (pre @ FinalTranscript t # post) s
              = receive w (pre @ [FinalTranscript t]) s"
    if "w \<notin> closedSockets (receive w pre s)"
  proof -
    from assms have "websocketRef (receive w pre s) = Some w \<or> w \<in> closedSockets (receive w pre s)"
      by (simp add: receive_ref_or_closed)
    with that have ref: "websocketRef (receive w pre s) = Some w"
      by simp
    have fin: "transcript (receive w [FinalTranscript t] (receive w pre s)) = t
       \<and> w \<in> closedSockets (receive w [FinalTranscript t] (receive w pre s))"
      using ref that by (rule final_commits_and_closes)
    have split: "receive w (pre @ FinalTranscript t # post) s
        = receive w post (receive w [FinalTranscript t] (receive w pre s))"
      using receive_append [of w "pre @ [FinalTranscript t]" post s]
      by (simp add: receive_append)
    from fin have "receive w post (receive w [FinalTranscript t] (receive w pre s))
        = receive w [FinalTranscript t] (receive w pre s)"
      by (simp add: receive_closed)
    with split fin show ?thesis
      by (simp add: receive_append)
  qed
  have partial: "transcript (onmessage (PartialTranscript p) s') = transcript s'"
    by simp
  have page: "\<exists>rest. fullTranscript (finalTexts @ later) = fullTranscript finalTexts @ rest"
    by (simp add: fullTranscript_def js_join_append)
  from committed partial page show ?thesis by blast
qed

theorem final_transcript_immutable_witness:
  "websocketRef connecting_state = Some 0
   \<and> 0 \<notin> closedSockets (receive 0 [SessionStarted, PartialTranscript ''he''] connecting_state)
   \<and> transcript (receive 0
        ([SessionStarted, PartialTranscript ''he''] @ [FinalTranscript ''hello''])
        connecting_state) = ''hello''
   \<and> transcript (receive 0
        ([SessionStarted, PartialTranscript ''he''] @ FinalTranscript ''hello''
           # [PartialTranscript ''by'', FinalTranscript ''bye''])
        connecting_state) = ''hello''
   \<and> fullTranscript ([''one'', ''two''] @ [''three'']) = fullTranscript [''one'', ''two''] @ '' three''"
  using final_transcript_immutable
    [where s = connecting_state and w = 0 and pre = "[SessionStarted, PartialTranscript ''he'']"
       and t = "''hello''" and post = "[PartialTranscript ''by'', FinalTranscript ''bye'']"]
  by (simp add: connecting_state_def receive_def deliver_def cleanupWebSocket_def
      fullTranscript_def)

text \<open>
  C2. A \<^verbatim>\<open>partial_transcript\<close> message replaces the stored partial transcript with the
  message's text and a \<^verbatim>\<open>final_transcript\<close> message resets it to the empty string.
  In page.tsx the last seen partial text is kept in \<^verbatim>\<open>lastTranscriptRef\<close>: after
  \<^verbatim>\<open>onPartialTranscript\<close> it is the event's text (the empty string when the text is
  missing), after \<^verbatim>\<open>onFinalTranscript\<close> it is empty.
\<close>

theorem partial_transcript_replaced_and_reset:
  "partialTranscript (onmessage (PartialTranscript t) s) = t
   \<and> partialTranscript (onmessage (FinalTranscript t) s) = []
   \<and> lastTranscriptRef (onPartialTranscript d now p) = text_or_empty d
   \<and> lastTranscriptRef (onFinalTranscript d now p) = []"
proof -
  have a: "partialTranscript (onmessage (PartialTranscript t) s) = t"
    by simp
  have b: "partialTranscript (onmessage (FinalTranscript t) s) = []"
    by (simp add: cleanupWebSocket_texts)
  have c: "lastTranscriptRef (onPartialTranscript d now p) = text_or_empty d"
    by (simp add: onPartialTranscript_def Let_def split: option.splits)
  have d: "lastTranscriptRef (onFinalTranscript d now p) = []"
    by (simp add: onFinalTranscript_def Let_def split: option.splits prod.splits)
  from a b c d show ?thesis by simp
qed

theorem partial_transcript_replaced_and_reset_witness:
  "partialTranscript (onmessage (PartialTranscript ''hel'')
      (connecting_state\<lparr>partialTranscript := ''he''\<rparr>)) = ''hel''
   \<and> partialTranscript (onmessage (FinalTranscript ''hel'')
      (connecting_state\<lparr>partialTranscript := ''he''\<rparr>)) = []
   \<and> lastTranscriptRef (onPartialTranscript (Some ''hel'') 7 initial_page) = ''hel''
   \<and> lastTranscriptRef (onFinalTranscript (Some ''hel'') 7 initial_page) = []"
  using partial_transcript_replaced_and_reset
    [of "''hel''" "connecting_state\<lparr>partialTranscript := ''he''\<rparr>" "Some ''hel''" 7 initial_page]
  by (simp add: js_or_def)

section \<open>Facts about the latency window\<close>

lemma slice_neg_last_entries: "slice_neg n xs = last_entries n xs"
  by (simp add: slice_neg_def last_entries_def take_rev)

lemma length_slice_neg: "length (slice_neg n xs) = min n (length xs)"
  by (simp add: slice_neg_def)

lemma text_or_empty_nonempty: "text_or_empty d \<noteq> [] \<longleftrightarrow> (\<exists>t. d = Some t \<and> t \<noteq> [])"
  by (cases d) (simp_all add: js_or_def)

lemma onPartial_records:
  assumes "segmentStartMsRef s = Some start"
    and "text_or_empty d \<noteq> lastTranscriptRef s" and "text_or_empty d \<noteq> []"
  shows "onPartialTranscript d now s =
     s\<lparr>lastTranscriptRef := text_or_empty d,
       latenciesMs := slice_neg 29 (latenciesMs s) @ [now - start],
       segmentStartMsRef := None\<rparr>"
  using assms by (simp add: onPartialTranscript_def)

lemma onFinal_records:
  assumes "segmentStartMsRef s = Some start" and "text_or_empty d \<noteq> []"
  shows "onFinalTranscript d now s =
     s\<lparr>lastTranscriptRef := [],
       latenciesMs := slice_neg 29 (latenciesMs s) @ [now - start],
       segmentStartMsRef := None\<rparr>"
  using assms by (auto simp add: onFinalTranscript_def text_or_empty_nonempty)

text \<open>
  C3. Whenever \<^verbatim>\<open>onPartialTranscript\<close> or \<^verbatim>\<open>onFinalTranscript\<close> records a latency (a
  start time is set, the text is non-empty and, for a partial, differs from the last one),
  the new \<^verbatim>\<open>latenciesMs\<close> is the last 29 previous entries (all of them when there are
  fewer) followed by the new latency, and so has at most 30 entries.
\<close>

theorem latencies_sliding_window:
  assumes "segmentStartMsRef s = Some start" and "text_or_empty d \<noteq> []"
  shows "(text_or_empty d \<noteq> lastTranscriptRef s \<longrightarrow>
            latenciesMs (onPartialTranscript d now s)
              = last_entries 29 (latenciesMs s) @ [now - start]
          \<and> length (latenciesMs (onPartialTranscript d now s)) \<le> 30)
       \<and> latenciesMs (onFinalTranscript d now s)
           = last_entries 29 (latenciesMs s) @ [now - start]
       \<and> length (latenciesMs (onFinalTranscript d now s)) \<le> 30
       \<and> length (last_entries 29 (latenciesMs s)) = min 29 (length (latenciesMs s))"
  using assms
  by (simp add: onPartial_records onFinal_records slice_neg_last_entries [symmetric]
      length_slice_neg)

theorem latencies_sliding_window_witness:
  "segmentStartMsRef (initial_page\<lparr>latenciesMs := full_window, segmentStartMsRef := Some 100\<rparr>)
     = Some 100
   \<and> text_or_empty (Some ''a'') \<noteq> []
   \<and> text_or_empty (Some ''a'')
       \<noteq> lastTranscriptRef
           (initial_page\<lparr>latenciesMs := full_window, segmentStartMsRef := Some 100\<rparr>)
   \<and> length full_window = 30
   \<and> latenciesMs (onPartialTranscript (Some ''a'') 150
        (initial_page\<lparr>latenciesMs := full_window, segmentStartMsRef := Some 100\<rparr>))
       = tl full_window @ [50]
   \<and> latenciesMs (onFinalTranscript (Some ''a'') 150
        (initial_page\<lparr>latenciesMs := full_window, segmentStartMsRef := Some 100\<rparr>))
       = tl full_window @ [50]
   \<and> length (latenciesMs (onFinalTranscript (Some ''a'') 150
        (initial_page\<lparr>latenciesMs := full_window, segmentStartMsRef := Some 100\<rparr>))) = 30"
  using latencies_sliding_window
    [of "initial_page\<lparr>latenciesMs := full_window, segmentStartMsRef := Some 100\<rparr>" 100
        "Some ''a''" 150]
  by (simp add: initial_page_def js_or_def last_entries_def full_window_def)

section \<open>The average latency\<close>

text \<open>
  Rounding to a double moves a value by at most half the spacing of the doubles around
  it, which in the normal range is a relative error of at most \<open>2 ^ -53\<close>.
\<close>

lemma round_half_even_error: "\<bar>of_int (round_half_even y) - y\<bar> \<le> 1 / 2"
proof -
  have f: "of_int \<lfloor>y\<rfloor> \<le> y" "y < of_int \<lfloor>y\<rfloor> + 1"
    by linarith+
  show ?thesis
  proof (cases "y - of_int \<lfloor>y\<rfloor> < 1 / 2")
    case True
    with f show ?thesis by (simp add: round_half_even_def)
  next
    case False
    show ?thesis
    proof (cases "1 / 2 < y - of_int \<lfloor>y\<rfloor>")
      case True
      with f show ?thesis by (simp add: round_half_even_def)
    next
      case h: False
      with False have "y - of_int \<lfloor>y\<rfloor> = 1 / 2" by simp
      then show ?thesis by (cases "even \<lfloor>y\<rfloor>") (simp_all add: round_half_even_def)
    qed
  qed
qed

lemma pow2_pos: "0 < pow2 e"
  by (simp add: pow2_def)

lemma to_double_error:
  assumes "to_double x = Finite r"
  shows "\<bar>r - x\<bar> \<le> pow2 (max (binade x) (- 1022) - 52) / 2"
proof (cases "x = 0")
  case True
  with assms show ?thesis by (simp add: to_double_def pow2_pos less_imp_le)
next
  case False
  define u where "u = pow2 (max (binade x) (- 1022) - 52)"
  define k where "k = (of_int (round_half_even (x / u)) :: rat)"
  have u: "0 < u" by (simp add: u_def pow2_pos)
  from assms False have r: "r = k * u"
    by (simp add: to_double_def Let_def u_def k_def split: if_splits)
  have "\<bar>k - x / u\<bar> \<le> 1 / 2"
    unfolding k_def by (rule round_half_even_error)
  then have "\<bar>k - x / u\<bar> * u \<le> 1 / 2 * u"
    using u by (simp add: mult_right_mono)
  moreover have "(k - x / u) * u = r - x"
    using u by (simp add: r left_diff_distrib)
  then have "\<bar>k - x / u\<bar> * u = \<bar>r - x\<bar>"
    using u by (metis abs_mult abs_of_pos)
  ultimately show ?thesis by (simp add: u_def)
qed

lemma pow2_Suc: "pow2 (e + 1) = 2 * pow2 e"
proof (cases "0 \<le> e")
  case True
  then show ?thesis by (simp add: pow2_def nat_add_distrib)
next
  case False
  then have n: "nat (- e) = Suc (nat (- (e + 1)))" by simp
  from False show ?thesis by (simp add: pow2_def n)
qed

lemma binade_bounds:
  assumes "x \<noteq> 0"
  shows "pow2 (binade x) \<le> \<bar>x\<bar> \<and> \<bar>x\<bar> < pow2 (binade x + 1)"
proof (cases "1 \<le> \<bar>x\<bar>")
  case True
  define n where "n = \<lfloor>\<bar>x\<bar>\<rfloor>"
  from True have n: "0 < n" by (simp add: n_def)
  then have bl: "2 ^ nat (bitlen n - 1) \<le> n \<and> n < 2 ^ nat (bitlen n)"
    by (rule bitlen_bounds)
  from n bl have pos: "0 < bitlen n" by (cases "0 < bitlen n") auto
  have nx: "of_int n \<le> \<bar>x\<bar>" "\<bar>x\<bar> < of_int n + 1"
    unfolding n_def by linarith+
  from bl have "(of_int (2 ^ nat (bitlen n - 1)) :: rat) \<le> of_int n"
    by (simp only: of_int_le_iff)
  then have lo0: "(2 :: rat) ^ nat (bitlen n - 1) \<le> of_int n"
    by (simp only: of_int_power of_int_numeral)
  have lo: "(2 :: rat) ^ nat (bitlen n - 1) \<le> \<bar>x\<bar>"
    using lo0 nx by linarith
  from bl have "n + 1 \<le> 2 ^ nat (bitlen n)" by simp
  then have "(of_int (n + 1) :: rat) \<le> of_int (2 ^ nat (bitlen n))"
    by (simp only: of_int_le_iff)
  then have hi0: "(of_int n :: rat) + 1 \<le> 2 ^ nat (bitlen n)"
    by (simp only: of_int_power of_int_numeral of_int_add of_int_1)
  have hi: "\<bar>x\<bar> < (2 :: rat) ^ nat (bitlen n)"
    using hi0 nx by linarith
  from True pos lo hi show ?thesis
    by (simp add: binade_def pow2_def flip: n_def)
next
  case False
  define y where "y = 1 / \<bar>x\<bar>"
  define m where "m = \<lceil>y\<rceil> - 1"
  from False assms have y: "1 < y" by (simp add: y_def)
  then have m: "0 < m" unfolding m_def by linarith
  then have bl: "2 ^ nat (bitlen m - 1) \<le> m \<and> m < 2 ^ nat (bitlen m)"
    by (rule bitlen_bounds)
  from m bl have pos: "0 < bitlen m" by (cases "0 < bitlen m") auto
  have my: "of_int m < y" "y \<le> of_int m + 1"
    unfolding m_def by linarith+
  from bl have "(of_int (2 ^ nat (bitlen m - 1)) :: rat) \<le> of_int m"
    by (simp only: of_int_le_iff)
  then have lo0: "(2 :: rat) ^ nat (bitlen m - 1) \<le> of_int m"
    by (simp only: of_int_power of_int_numeral)
  have lo: "(2 :: rat) ^ nat (bitlen m - 1) < y"
    using lo0 my by linarith
  from bl have "m + 1 \<le> 2 ^ nat (bitlen m)" by simp
  then have "(of_int (m + 1) :: rat) \<le> of_int (2 ^ nat (bitlen m))"
    by (simp only: of_int_le_iff)
  then have hi0: "(of_int m :: rat) + 1 \<le> 2 ^ nat (bitlen m)"
    by (simp only: of_int_power of_int_numeral of_int_add of_int_1)
  have hi: "y \<le> (2 :: rat) ^ nat (bitlen m)"
    using hi0 my by linarith
  have xy: "\<bar>x\<bar> = 1 / y" using assms by (simp add: y_def)
  from hi y have a: "1 / 2 ^ nat (bitlen m) \<le> \<bar>x\<bar>"
    unfolding xy by (simp add: frac_le)
  from lo have b: "\<bar>x\<bar> < 1 / 2 ^ nat (bitlen m - 1)"
    unfolding xy by (simp add: frac_less2)
  have e1: "pow2 (- bitlen m) = 1 / 2 ^ nat (bitlen m)"
    using pos by (simp add: pow2_def)
  have e2: "pow2 (1 - bitlen m) = 1 / 2 ^ nat (bitlen m - 1)"
  proof (cases "bitlen m = 1")
    case True
    then show ?thesis by (simp add: pow2_def)
  next
    case ne: False
    with pos have "\<not> 0 \<le> 1 - bitlen m" by simp
    moreover have "nat (- (1 - bitlen m)) = nat (bitlen m - 1)" by simp
    ultimately show ?thesis by (simp only: pow2_def if_False)
  qed
  from False a b show ?thesis
    by (simp add: binade_def e1 e2 flip: m_def y_def)
qed


lemma pow2_add_nat: "pow2 (a + int k) = pow2 a * 2 ^ k"
proof (induction k)
  case 0
  show ?case by simp
next
  case (Suc k)
  have "pow2 (a + int (Suc k)) = 2 * pow2 (a + int k)"
    using pow2_Suc [of "a + int k"] by (simp add: ac_simps)
  with Suc show ?case by simp
qed

lemma to_double_relative_error:
  assumes "x \<noteq> 0" and "- 1022 \<le> binade x" and "to_double x = Finite r"
  shows "\<bar>r - x\<bar> \<le> \<bar>x\<bar> / 2 ^ 53"
proof -
  have "pow2 (binade x - 52) = 2 * pow2 (binade x - 53)"
    using pow2_Suc [of "binade x - 53"] by simp
  moreover have "pow2 (binade x) = pow2 (binade x - 53) * 2 ^ 53"
    using pow2_add_nat [of "binade x - 53" 53] by simp
  moreover have "\<bar>r - x\<bar> \<le> pow2 (binade x - 52) / 2"
    using to_double_error [OF assms(3)] assms(2) by (simp add: max_def)
  moreover have "pow2 (binade x) \<le> \<bar>x\<bar>"
    using binade_bounds [OF assms(1)] by simp
  ultimately show ?thesis by simp
qed

lemma to_double_not_NaN: "to_double x \<noteq> NaN"
  by (simp add: to_double_def Let_def)

lemma double_add_finite_not_NaN: "acc \<noteq> NaN \<Longrightarrow> double_add acc (Finite v) \<noteq> NaN"
  by (cases acc) (simp_all add: to_double_not_NaN)

lemma double_sum_from_not_NaN: "acc \<noteq> NaN \<Longrightarrow> double_sum_from acc ls \<noteq> NaN"
proof (induction ls arbitrary: acc)
  case Nil
  then show ?case by simp
next
  case (Cons v vs)
  then show ?case by (simp add: double_add_finite_not_NaN)
qed

lemma double_divide_not_NaN: "x \<noteq> NaN \<Longrightarrow> n \<noteq> 0 \<Longrightarrow> double_divide x n \<noteq> NaN"
  by (cases x) (simp_all add: to_double_not_NaN)

lemma Math_round_not_NaN: "x \<noteq> NaN \<Longrightarrow> Math_round x \<noteq> NaN"
  by (cases x) simp_all

text \<open>The \<^verbatim>\<open>reduce\<close> of the source is the left-to-right sum.\<close>

lemma reduce_double_sum:
  "foldl (\<lambda>sum v. double_add sum (Finite v)) acc ls = double_sum_from acc ls"
  by (induction ls arbitrary: acc) simp_all

lemma averageLatency_nonempty:
  "ls \<noteq> [] \<Longrightarrow> averageLatency ls = Math_round (double_mean ls)"
  by (simp add: averageLatency_def double_mean_def reduce_double_sum)

lemma averageLatency_not_NaN: "averageLatency ls \<noteq> NaN"
proof (cases ls)
  case Nil
  then show ?thesis by (simp add: averageLatency_def)
next
  case (Cons v vs)
  then have "double_mean ls \<noteq> NaN"
    by (simp add: double_mean_def double_divide_not_NaN double_sum_from_not_NaN
        del: double_sum_from.simps)
  with Cons show ?thesis
    by (simp add: averageLatency_nonempty Math_round_not_NaN)
qed

lemma round_nearest: "\<bar>of_int \<lfloor>q + 1 / 2\<rfloor> - q\<bar> \<le> (1 / 2 :: rat)"
  by linarith

text \<open>
  C4, as amended. The \<^verbatim>\<open>averageLatency\<close> value computed for the latency badge is 0
  for an empty sample list. For a non-empty one it is \<^verbatim>\<open>Math.round\<close> of the mean as
  double arithmetic gives it (the entries added from left to right and the sum divided by
  the count, each result rounded to the nearest double): when that mean is finite, the
  integer nearest to it, at most one half away, a tie going up. It is the rounded exact
  mean whenever the double sum and the double quotient are exact. It is never \<^verbatim>\<open>NaN\<close>:
  the division never has a zero divisor. Each rounding to a double stays within a
  relative error of \<open>2 ^ -53\<close> of the exact result in the normal range.
\<close>

theorem averageLatency_double_mean:
  "averageLatency [] = Finite 0
   \<and> averageLatency ls \<noteq> NaN
   \<and> (ls \<noteq> [] \<longrightarrow> averageLatency ls = Math_round (double_mean ls))
   \<and> (ls \<noteq> [] \<and> double_mean ls = Finite q \<longrightarrow>
        averageLatency ls = Finite (of_int \<lfloor>q + 1 / 2\<rfloor>)
        \<and> \<bar>of_int \<lfloor>q + 1 / 2\<rfloor> - q\<bar> \<le> 1 / 2)
   \<and> (ls \<noteq> [] \<and> double_sum_from (Finite 0) ls = Finite (sum_list ls)
        \<and> to_double (sum_list ls / of_nat (length ls)) = Finite (sum_list ls / of_nat (length ls))
      \<longrightarrow> averageLatency ls = Finite (of_int \<lfloor>sum_list ls / of_nat (length ls) + 1 / 2\<rfloor>))
   \<and> (x \<noteq> 0 \<and> - 1022 \<le> binade x \<and> to_double x = Finite r \<longrightarrow>
        pow2 (binade x) \<le> \<bar>x\<bar> \<and> \<bar>x\<bar> < pow2 (binade x + 1) \<and> \<bar>r - x\<bar> \<le> \<bar>x\<bar> / 2 ^ 53)"
proof -
  have e: "averageLatency [] = Finite 0"
    by (simp add: averageLatency_def)
  have t: "averageLatency ls \<noteq> NaN"
    by (rule averageLatency_not_NaN)
  have n: "ls \<noteq> [] \<longrightarrow> averageLatency ls = Math_round (double_mean ls)"
    by (simp add: averageLatency_nonempty)
  have f: "ls \<noteq> [] \<and> double_mean ls = Finite q \<longrightarrow>
        averageLatency ls = Finite (of_int \<lfloor>q + 1 / 2\<rfloor>)
        \<and> \<bar>of_int \<lfloor>q + 1 / 2\<rfloor> - q\<bar> \<le> 1 / 2"
    using round_nearest [of q] by (simp add: averageLatency_nonempty)
  have x: "ls \<noteq> [] \<and> double_sum_from (Finite 0) ls = Finite (sum_list ls)
        \<and> to_double (sum_list ls / of_nat (length ls)) = Finite (sum_list ls / of_nat (length ls))
      \<longrightarrow> averageLatency ls = Finite (of_int \<lfloor>sum_list ls / of_nat (length ls) + 1 / 2\<rfloor>)"
    by (simp add: averageLatency_nonempty double_mean_def)
  have d: "x \<noteq> 0 \<and> - 1022 \<le> binade x \<and> to_double x = Finite r \<longrightarrow>
        pow2 (binade x) \<le> \<bar>x\<bar> \<and> \<bar>x\<bar> < pow2 (binade x + 1) \<and> \<bar>r - x\<bar> \<le> \<bar>x\<bar> / 2 ^ 53"
    using binade_bounds [of x] to_double_relative_error [of x r] by blast
  from e t n f x d show ?thesis by blast
qed

theorem averageLatency_double_mean_witness:
  "[100, 101] \<noteq> ([] :: rat list)
   \<and> double_mean [100, 101] = Finite (201 / 2)
   \<and> double_sum_from (Finite 0) [100, 101] = Finite (sum_list [100, 101])
   \<and> to_double (sum_list [100, 101] / of_nat (length [100, 101 :: rat]))
       = Finite (sum_list [100, 101] / of_nat (length [100, 101 :: rat]))
   \<and> averageLatency [100, 101] = Finite 101
   \<and> (1 / 3 :: rat) \<noteq> 0 \<and> - 1022 \<le> binade (1 / 3)
   \<and> to_double (1 / 3) = Finite (6004799503160661 / 18014398509481984)
   \<and> \<bar>6004799503160661 / 18014398509481984 - 1 / 3\<bar> \<le> \<bar>1 / 3 :: rat\<bar> / 2 ^ 53"
proof -
  have m: "double_mean [100, 101] = Finite (201 / 2)"
    by code_simp
  have s: "double_sum_from (Finite 0) [100, 101] = Finite (sum_list [100, 101])"
    by code_simp
  have d: "to_double (sum_list [100, 101] / of_nat (length [100, 101 :: rat]))
       = Finite (sum_list [100, 101] / of_nat (length [100, 101 :: rat]))"
    by code_simp
  have r: "\<lfloor>201 / 2 + 1 / 2 :: rat\<rfloor> = 101"
    by simp
  have b: "binade (1 / 3) = - 2"
    by code_simp
  have t: "to_double (1 / 3) = Finite (6004799503160661 / 18014398509481984)"
    by code_simp
  show ?thesis
    using averageLatency_double_mean
      [where ls = "[100, 101]" and q = "201 / 2" and x = "1 / 3"
         and r = "6004799503160661 / 18014398509481984"] m s d r b t
    by simp
qed

text \<open>
  C4 as stated fails: for the two samples 184.1 and 358.9 the double sum is 543, the
  double mean 271.5 and the value 272, while the arithmetic mean of the two entries is
  below 271.5, rounds to 271, and is more than one half away from 272.
\<close>

theorem averageLatency_not_rounded_exact_mean:
  "to_double latency_184_1 = Finite latency_184_1
   \<and> to_double latency_358_9 = Finite latency_358_9
   \<and> averageLatency [latency_184_1, latency_358_9] = Finite 272
   \<and> \<lfloor>sum_list [latency_184_1, latency_358_9]
        / of_nat (length [latency_184_1, latency_358_9]) + 1 / 2\<rfloor> = 271
   \<and> \<not> \<bar>272 - sum_list [latency_184_1, latency_358_9]
            / of_nat (length [latency_184_1, latency_358_9])\<bar> \<le> 1 / 2"
  by code_simp

section \<open>The displayed text\<close>

text \<open>
  C5. The displayed text is the error message if that is non-empty, otherwise the
  partial transcript if that is non-empty, otherwise the final transcript; in page.tsx
  the final transcript is the segments' texts joined by single spaces, and the stabilised
  text that is rendered is that same text.
\<close>

theorem displayText_precedence:
  "displayText s =
     (if error s \<noteq> [] then error s
      else if partialTranscript s \<noteq> [] then partialTranscript s
      else transcript s)
   \<and> displayText_page err partial finalTexts =
     (if err \<noteq> [] then err
      else if partial \<noteq> [] then partial
      else js_join '' '' finalTexts)
   \<and> stableDisplayText prev (displayText_page err partial finalTexts)
     = displayText_page err partial finalTexts"
  by (simp add: displayText_def displayText_page_def js_or_def fullTranscript_def
      stableDisplayText_def)

theorem displayText_precedence_witness:
  "displayText (connecting_state\<lparr>transcript := ''old'', partialTranscript := ''ne''\<rparr>) = ''ne''
   \<and> displayText_page [] [] [''one'', ''two three'', ''four''] = ''one two three four''
   \<and> stableDisplayText ''x'' (displayText_page [] [] [''one'', ''two three'', ''four''])
       = ''one two three four''"
  using displayText_precedence
      [of "connecting_state\<lparr>transcript := ''old'', partialTranscript := ''ne''\<rparr>"
          "[]" "[]" "[''one'', ''two three'', ''four'']" "''x''"]
  by (simp add: connecting_state_def stableDisplayText_def)

section \<open>The latency protocol\<close>

lemma run_snoc: "run (es @ [e]) s = step (run es s) e"
  by (simp add: run_def)

lemma run_Cons: "run (e # es) s = run es (step s e)"
  by (simp add: run_def)

lemma annotate_snoc:
  "annotate s (es @ [e]) =
     annotate s es @ [(e, records_latency (run es s) e, clears_start (run es s) e)]"
proof (induction es arbitrary: s)
  case Nil
  show ?case by (simp add: run_def)
next
  case (Cons x es)
  then show ?case by (simp add: run_Cons)
qed

lemma after_last_snoc:
  "after_last P (xs @ [x]) = (if P x then [] else after_last P xs @ [x])"
  by (simp add: after_last_def)

lemma first_tick_append:
  "first_tick (h @ h') = (case first_tick h of Some t \<Rightarrow> Some t | None \<Rightarrow> first_tick h')"
  by (induction h rule: first_tick.induct) simp_all

text \<open>What one event does to the start time and to the samples.\<close>

lemma step_start:
  "segmentStartMsRef (step s e) =
     (if clears_start s e then None
      else case e of
             Tick now \<Rightarrow> (case segmentStartMsRef s of None \<Rightarrow> Some now | Some t \<Rightarrow> Some t)
           | _ \<Rightarrow> segmentStartMsRef s)"
proof (cases e)
  case (Tick now)
  then show ?thesis by (simp add: tick_def split: option.splits)
next
  case (Partial d now)
  then show ?thesis
    by (auto simp add: onPartialTranscript_def Let_def split: option.splits)
next
  case (Final d now)
  then show ?thesis
    by (simp add: onFinalTranscript_def Let_def)
qed

lemma step_latencies:
  "latenciesMs (step s e) =
     (if records_latency s e
      then slice_neg 29 (latenciesMs s) @ [event_time e - the (segmentStartMsRef s)]
      else latenciesMs s)"
proof (cases e)
  case (Tick now)
  then show ?thesis by (simp add: tick_def split: option.splits)
next
  case (Partial d now)
  then show ?thesis
    by (auto simp add: onPartialTranscript_def Let_def split: option.splits)
next
  case (Final d now)
  then show ?thesis
    by (cases d) (auto simp add: onFinalTranscript_def Let_def js_or_def split: option.splits)
qed

text \<open>
  The invariant: started with no start time, the ref always holds the time of the first
  tick since the last event that cleared it.
\<close>

lemma start_is_tick_after_clear:
  "segmentStartMsRef s = None \<Longrightarrow> segmentStartMsRef (run es s) = tick_after_clear s es"
proof (induction es rule: rev_induct)
  case Nil
  then show ?case by (simp add: run_def tick_after_clear_def after_last_def)
next
  case (snoc e es)
  then have IH: "segmentStartMsRef (run es s) = tick_after_clear s es" by simp
  show ?case
  proof (cases "clears_start (run es s) e")
    case True
    then show ?thesis
      by (simp add: run_snoc step_start tick_after_clear_def annotate_snoc after_last_snoc)
  next
    case False
    then have l: "segmentStartMsRef (run (es @ [e]) s) =
        (case e of
           Tick now \<Rightarrow> (case segmentStartMsRef (run es s) of None \<Rightarrow> Some now | Some t \<Rightarrow> Some t)
         | _ \<Rightarrow> segmentStartMsRef (run es s))"
      by (simp only: run_snoc step_start if_False)
    from False have r: "tick_after_clear s (es @ [e]) =
        (case tick_after_clear s es of
           Some t \<Rightarrow> Some t
         | None \<Rightarrow> first_tick [(e, records_latency (run es s) e, False)])"
      by (simp add: tick_after_clear_def annotate_snoc after_last_snoc first_tick_append)
    from l r IH show ?thesis
      by (cases e) (simp_all split: option.splits)
  qed
qed

text \<open>
  C6, as amended. The tick sets the start time only when it is null (it leaves a set
  start time alone and fills an empty one with the clock reading); after every
  \<^verbatim>\<open>onFinalTranscript\<close> call and every \<^verbatim>\<open>onPartialTranscript\<close> call that records a
  latency the start time is null; hence, in any sequence of ticks and transcript events
  begun with a null start time, each recorded latency is the time elapsed from the first
  tick after the last event that cleared the start time (the previous
  \<^verbatim>\<open>onFinalTranscript\<close> call, also one that recorded nothing, or the previous recorded
  latency, whichever came later) to the transcript event. An event that records nothing
  leaves the samples as they are.
\<close>

theorem segment_start_protocol:
  "tick now (s\<lparr>segmentStartMsRef := Some t\<rparr>) = s\<lparr>segmentStartMsRef := Some t\<rparr>
   \<and> segmentStartMsRef (tick now (s\<lparr>segmentStartMsRef := None\<rparr>)) = Some now
   \<and> segmentStartMsRef (onFinalTranscript d now s) = None
   \<and> (records_latency s (Partial d now) \<longrightarrow>
        segmentStartMsRef (onPartialTranscript d now s) = None)
   \<and> (segmentStartMsRef s0 = None \<and> records_latency (run es s0) e \<longrightarrow>
        (\<exists>t0. tick_after_clear s0 es = Some t0
           \<and> latenciesMs (step (run es s0) e)
             = slice_neg 29 (latenciesMs (run es s0)) @ [event_time e - t0]))
   \<and> (\<not> records_latency s e' \<longrightarrow> latenciesMs (step s e') = latenciesMs s)"
proof -
  have a: "tick now (s\<lparr>segmentStartMsRef := Some t\<rparr>) = s\<lparr>segmentStartMsRef := Some t\<rparr>"
    by (simp add: tick_def)
  have b: "segmentStartMsRef (tick now (s\<lparr>segmentStartMsRef := None\<rparr>)) = Some now"
    by (simp add: tick_def)
  have c: "segmentStartMsRef (onFinalTranscript d now s) = None"
    by (simp add: onFinalTranscript_def Let_def)
  have d: "records_latency s (Partial d now) \<longrightarrow>
        segmentStartMsRef (onPartialTranscript d now s) = None"
    using step_start [of s "Partial d now"] by simp
  have e: "segmentStartMsRef s0 = None \<and> records_latency (run es s0) e \<longrightarrow>
        (\<exists>t0. tick_after_clear s0 es = Some t0
           \<and> latenciesMs (step (run es s0) e)
             = slice_neg 29 (latenciesMs (run es s0)) @ [event_time e - t0])"
  proof
    assume h: "segmentStartMsRef s0 = None \<and> records_latency (run es s0) e"
    then have eq: "segmentStartMsRef (run es s0) = tick_after_clear s0 es"
      by (simp add: start_is_tick_after_clear)
    from h have "segmentStartMsRef (run es s0) \<noteq> None"
      by (cases e) simp_all
    then obtain t0 where t0: "segmentStartMsRef (run es s0) = Some t0" by blast
    with eq have "tick_after_clear s0 es = Some t0" by simp
    moreover from h t0 have "latenciesMs (step (run es s0) e)
             = slice_neg 29 (latenciesMs (run es s0)) @ [event_time e - t0]"
      by (simp add: step_latencies)
    ultimately show "\<exists>t0. tick_after_clear s0 es = Some t0
           \<and> latenciesMs (step (run es s0) e)
             = slice_neg 29 (latenciesMs (run es s0)) @ [event_time e - t0]"
      by blast
  qed
  have f: "\<not> records_latency s e' \<longrightarrow> latenciesMs (step s e') = latenciesMs s"
    by (simp add: step_latencies)
  from a b c d e f show ?thesis by blast
qed

theorem segment_start_protocol_witness:
  "records_latency (initial_page\<lparr>segmentStartMsRef := Some 300\<rparr>) (Partial (Some ''b'') 400)
   \<and> segmentStartMsRef (onPartialTranscript (Some ''b'') 400
        (initial_page\<lparr>segmentStartMsRef := Some 300\<rparr>)) = None
   \<and> segmentStartMsRef initial_page = None
   \<and> records_latency (run silent_final_trace initial_page) (Partial (Some ''b'') 400)
   \<and> tick_after_clear initial_page silent_final_trace = Some 300
   \<and> latenciesMs (step (run silent_final_trace initial_page) (Partial (Some ''b'') 400))
       = [50, 100]
   \<and> \<not> records_latency (initial_page\<lparr>segmentStartMsRef := Some 300\<rparr>) (Tick 350)
   \<and> latenciesMs (step (initial_page\<lparr>segmentStartMsRef := Some 300\<rparr>) (Tick 350))
       = latenciesMs (initial_page\<lparr>segmentStartMsRef := Some 300\<rparr>)"
  using segment_start_protocol
    [where now = 400 and s = "initial_page\<lparr>segmentStartMsRef := Some 300\<rparr>" and t = 300
       and d = "Some ''b''" and ?s0.0 = initial_page and es = silent_final_trace
       and e = "Partial (Some ''b'') 400" and e' = "Tick 350"]
  by (simp add: silent_final_trace_def run_def initial_page_def tick_def
      onFinalTranscript_def onPartialTranscript_def tick_after_clear_def after_last_def
      js_or_def slice_neg_def)

text \<open>
  C6 as stated fails: a final transcript with empty text clears the start time without
  measuring, so the latency recorded at time 400 is 100, counted from the tick at 300,
  while the first tick after the previous measurement (at time 50) is the one at 100.
\<close>

theorem latency_not_from_tick_after_measurement:
  "records_latency (run silent_final_trace initial_page) (Partial (Some ''b'') 400)
   \<and> latenciesMs (run silent_final_trace initial_page) = [50]
   \<and> tick_after_measurement initial_page silent_final_trace = Some 100
   \<and> latenciesMs (step (run silent_final_trace initial_page) (Partial (Some ''b'') 400))
       = [50, 100]
   \<and> latenciesMs (step (run silent_final_trace initial_page) (Partial (Some ''b'') 400))
       \<noteq> slice_neg 29 (latenciesMs (run silent_final_trace initial_page))
           @ [event_time (Partial (Some ''b'') 400) - 100]"
  by (simp add: silent_final_trace_def run_def initial_page_def tick_def
      onFinalTranscript_def onPartialTranscript_def tick_after_measurement_def after_last_def
      js_or_def slice_neg_def)

section \<open>Keyboard shortcuts\<close>

text \<open>
  C7. A keydown event whose target is an \<^verbatim>\<open>INPUT\<close> or \<^verbatim>\<open>TEXTAREA\<close> element never
  starts or toggles recording: neither \<^verbatim>\<open>startRecording\<close> (part_000) nor
  \<^verbatim>\<open>handleToggleRecording\<close> (page.tsx) is invoked; the handlers do nothing at all.
\<close>

theorem shortcut_ignored_in_text_fields:
  assumes "target e = HTMLElement ''INPUT'' \<or> target e = HTMLElement ''TEXTAREA''"
  shows "StartRecording \<notin> set (handleKeyDown s e)
       \<and> HandleToggleRecording \<notin> set (handleKeyDown_page e)
       \<and> handleKeyDown s e = [] \<and> handleKeyDown_page e = []"
  using assms by (auto simp: handleKeyDown_def handleKeyDown_page_def js_includes_def)

theorem shortcut_ignored_in_text_fields_witness:
  "(target key_in_input = HTMLElement ''INPUT'' \<or> target key_in_input = HTMLElement ''TEXTAREA'')
   \<and> StartRecording \<notin> set (handleKeyDown (connecting_state\<lparr>isConnecting := False\<rparr>) key_in_input)
   \<and> HandleToggleRecording \<notin> set (handleKeyDown_page key_in_input)
   \<and> handleKeyDown (connecting_state\<lparr>isConnecting := False\<rparr>)
        (key_in_input\<lparr>target := HTMLElement ''DIV''\<rparr>) = [PreventDefault, StartRecording]
   \<and> handleKeyDown_page (key_in_input\<lparr>target := HTMLElement ''DIV''\<rparr>)
       = [PreventDefault, HandleToggleRecording]"
  using shortcut_ignored_in_text_fields
    [of key_in_input "connecting_state\<lparr>isConnecting := False\<rparr>"]
  by (simp add: key_in_input_def connecting_state_def handleKeyDown_def handleKeyDown_page_def
      js_includes_def)

section \<open>Duplicate partial transcripts\<close>

text \<open>
  C8. A partial-transcript event whose text (the empty string when the text is missing)
  equals the last seen text changes nothing: the whole state, and with it the samples,
  \<^verbatim>\<open>lastTranscriptRef\<close> and \<^verbatim>\<open>segmentStartMsRef\<close>, is as before. In particular the
  same event delivered a second time has no effect.
\<close>

theorem onPartialTranscript_duplicate_ignored:
  "(text_or_empty d = lastTranscriptRef p \<longrightarrow>
      onPartialTranscript d now p = p
      \<and> latenciesMs (onPartialTranscript d now p) = latenciesMs p
      \<and> lastTranscriptRef (onPartialTranscript d now p) = lastTranscriptRef p
      \<and> segmentStartMsRef (onPartialTranscript d now p) = segmentStartMsRef p)
   \<and> onPartialTranscript d later (onPartialTranscript d now p) = onPartialTranscript d now p"
proof -
  have a: "text_or_empty d = lastTranscriptRef p \<Longrightarrow> onPartialTranscript d now p = p"
    by (simp add: onPartialTranscript_def)
  have b: "onPartialTranscript d later (onPartialTranscript d now p) = onPartialTranscript d now p"
    by (simp add: onPartialTranscript_def Let_def split: option.splits)
  from a b show ?thesis by simp
qed

theorem onPartialTranscript_duplicate_ignored_witness:
  "text_or_empty (Some ''he'')
     = lastTranscriptRef (initial_page\<lparr>lastTranscriptRef := ''he'', segmentStartMsRef := Some 10\<rparr>)
   \<and> onPartialTranscript (Some ''he'') 20
        (initial_page\<lparr>lastTranscriptRef := ''he'', segmentStartMsRef := Some 10\<rparr>)
       = initial_page\<lparr>lastTranscriptRef := ''he'', segmentStartMsRef := Some 10\<rparr>
   \<and> latenciesMs (onPartialTranscript (Some ''hel'') 20
        (initial_page\<lparr>lastTranscriptRef := ''he'', segmentStartMsRef := Some 10\<rparr>)) = [10]"
  using onPartialTranscript_duplicate_ignored
    [where d = "Some ''he''" and now = 20 and later = 30
       and p = "initial_page\<lparr>lastTranscriptRef := ''he'', segmentStartMsRef := Some 10\<rparr>"]
  by (simp add: js_or_def onPartialTranscript_def initial_page_def slice_neg_def)

section \<open>PCM16 conversion\<close>

lemma max_min_clamp: "max (- 1) (min 1 r) = clamp r"
  by (simp add: clamp_def min_def max_def)

lemma clamp_bounds: "- 1 \<le> clamp r \<and> clamp r \<le> 1"
  by (simp add: clamp_def)

lemma clamp_mono: "a \<le> b \<Longrightarrow> clamp a \<le> clamp b"
  by (simp add: clamp_def)

lemma js_trunc_mono:
  assumes "a \<le> b"
  shows "js_trunc a \<le> js_trunc b"
proof (cases "0 \<le> a")
  case True
  with assms show ?thesis by (simp add: js_trunc_def floor_mono)
next
  case False
  show ?thesis
  proof (cases "0 \<le> b")
    case True
    from False have "\<lceil>a\<rceil> \<le> 0" by (simp add: ceiling_le_iff)
    moreover from True have "0 \<le> \<lfloor>b\<rfloor>" by simp
    ultimately have "\<lceil>a\<rceil> \<le> \<lfloor>b\<rfloor>" by (rule order_trans)
    with False True show ?thesis by (simp only: js_trunc_def if_True if_False)
  next
    case b: False
    with False assms show ?thesis by (simp add: js_trunc_def ceiling_mono)
  qed
qed

lemma js_trunc_range:
  assumes "- 32767 \<le> r" and "r \<le> 32767"
  shows "- 32767 \<le> js_trunc r \<and> js_trunc r \<le> 32767"
  using assms unfolding js_trunc_def
  by (auto simp: le_floor_iff floor_le_iff ceiling_le_iff le_ceiling_iff)

text \<open>A value in the 16-bit signed range is stored unchanged.\<close>

lemma sint16_of_int:
  assumes "- 32767 \<le> k" and "k \<le> 32767"
  shows "sint (word_of_int k :: 16 word) = k"
  using assms by (simp add: sint_sbintrunc' signed_take_bit_int_eq_self)

lemma scaled_range: "- 32767 \<le> clamp r * 32767 \<and> clamp r * 32767 \<le> 32767"
  using clamp_bounds [of r] by simp

lemma toPcm16_finite: "sint (toPcm16 (Finite r)) = js_trunc (clamp r * 32767)"
proof -
  have "- 32767 \<le> js_trunc (clamp r * 32767) \<and> js_trunc (clamp r * 32767) \<le> 32767"
    using js_trunc_range scaled_range by blast
  then show ?thesis
    by (simp add: toPcm16_def max_min_clamp sint16_of_int)
qed

lemma toPcm16_special:
  "sint (toPcm16 PosInfinity) = 32767"
  "sint (toPcm16 NegInfinity) = - 32767"
  "sint (toPcm16 NaN) = 0"
  by (simp_all add: toPcm16_def js_trunc_def)

lemma toPcm16_range: "- 32767 \<le> sint (toPcm16 x) \<and> sint (toPcm16 x) \<le> 32767"
proof (cases x)
  case (Finite r)
  then show ?thesis using js_trunc_range scaled_range by (simp add: toPcm16_finite)
qed (simp_all add: toPcm16_special)

lemma toPcm16_mono: "js_le x y \<Longrightarrow> sint (toPcm16 x) \<le> sint (toPcm16 y)"
proof (cases x; cases y)
  fix a b
  assume "js_le x y" and "x = Finite a" and "y = Finite b"
  then show ?thesis
    by (simp add: toPcm16_finite js_trunc_mono clamp_mono)
qed (use toPcm16_range in \<open>simp_all add: toPcm16_special\<close>)

lemma pcm_loop_map: "pcm_loop xs = map toPcm16 xs"
  by (induction xs) simp_all

text \<open>
  C9. The Float32-to-PCM16 conversion is a clamped monotone map: a finite sample \<open>r\<close>
  is stored as the truncation of \<open>clamp r * 0x7fff\<close>, the infinities as the two ends of
  the range and \<^verbatim>\<open>NaN\<close> as 0; every stored sample, read as a signed 16-bit value, lies
  in \<open>[-32767, 32767]\<close>, for one sample and for a whole buffer; and a larger input never
  gives a smaller output.
\<close>

theorem pcm16_clamped_monotone:
  "sint (toPcm16 (Finite r)) = js_trunc (clamp r * 32767)
   \<and> sint (toPcm16 PosInfinity) = 32767 \<and> sint (toPcm16 NegInfinity) = - 32767
   \<and> sint (toPcm16 NaN) = 0
   \<and> - 32767 \<le> sint (toPcm16 x) \<and> sint (toPcm16 x) \<le> 32767
   \<and> (\<forall>v \<in> set (pcm_loop xs). - 32767 \<le> sint v \<and> sint v \<le> 32767)
   \<and> length (pcm_loop xs) = length xs
   \<and> (js_le x y \<longrightarrow> sint (toPcm16 x) \<le> sint (toPcm16 y))"
  using toPcm16_finite [of r] toPcm16_range [of x] toPcm16_range toPcm16_mono [of x y]
  by (auto simp add: toPcm16_special pcm_loop_map)

theorem pcm16_clamped_monotone_witness:
  "js_le (Finite (- 3)) (Finite (1 / 2))
   \<and> sint (toPcm16 (Finite (- 3))) \<le> sint (toPcm16 (Finite (1 / 2)))
   \<and> sint (toPcm16 (Finite (1 / 2))) = 16383
   \<and> map sint (pcm_loop [Finite (1 / 2), NaN, PosInfinity]) = [16383, 0, 32767]"
proof -
  have fl: "\<lfloor>32767 / 2 :: rat\<rfloor> = 16383"
    by (simp add: floor_eq_iff)
  have cl: "clamp (1 / 2) = 1 / 2"
    by (simp add: clamp_def)
  show ?thesis
    using pcm16_clamped_monotone
      [where r = "1 / 2" and x = "Finite (- 3)" and y = "Finite (1 / 2)"
         and xs = "[Finite (1 / 2), NaN, PosInfinity]"]
    by (simp add: fl cl js_trunc_def toPcm16_special)
qed

section \<open>Error paths of the WebSocket component\<close>

text \<open>
  C10. On a server message of type \<^verbatim>\<open>error\<close> and on a WebSocket error event the
  resulting state has the error text set (the message's text, respectively
  \<open>Connection error\<close>), has \<^verbatim>\<open>isRecording\<close>, \<^verbatim>\<open>isConnecting\<close> and \<^verbatim>\<open>isProcessing\<close>
  all false, and has the socket reference cleared, the socket it held having been closed.
\<close>

theorem error_paths_reset_session:
  "error (onmessage (ErrorMessage e) s) = e
   \<and> \<not> isRecording (onmessage (ErrorMessage e) s)
   \<and> \<not> isConnecting (onmessage (ErrorMessage e) s)
   \<and> \<not> isProcessing (onmessage (ErrorMessage e) s)
   \<and> websocketRef (onmessage (ErrorMessage e) s) = None
   \<and> (\<forall>w. websocketRef s = Some w \<longrightarrow> w \<in> closedSockets (onmessage (ErrorMessage e) s))
   \<and> error (onerror s) = ''Connection error''
   \<and> \<not> isRecording (onerror s) \<and> \<not> isConnecting (onerror s) \<and> \<not> isProcessing (onerror s)
   \<and> websocketRef (onerror s) = None
   \<and> (\<forall>w. websocketRef s = Some w \<longrightarrow> w \<in> closedSockets (onerror s))"
  by (simp add: cleanupWebSocket_texts cleanupWebSocket_flags cleanupWebSocket_ref
      cleanupWebSocket_closed onerror_def cleanupStream_fields)

theorem error_paths_reset_session_witness:
  "websocketRef (connecting_state\<lparr>isProcessing := True\<rparr>) = Some 0
   \<and> 0 \<in> closedSockets (onmessage (ErrorMessage ''quota'') (connecting_state\<lparr>isProcessing := True\<rparr>))
   \<and> 0 \<in> closedSockets (onerror (connecting_state\<lparr>isProcessing := True\<rparr>))
   \<and> error (onmessage (ErrorMessage ''quota'') (connecting_state\<lparr>isProcessing := True\<rparr>))
       = ''quota''
   \<and> \<not> isConnecting (onerror (connecting_state\<lparr>isProcessing := True\<rparr>))
   \<and> \<not> isProcessing (onerror (connecting_state\<lparr>isProcessing := True\<rparr>))"
  using error_paths_reset_session
    [where e = "''quota''" and s = "connecting_state\<lparr>isProcessing := True\<rparr>"]
  by (simp add: connecting_state_def)

end
